theory Spec2Isabelle
  imports Main
begin

section \<open>The edge worker of the 50-point alert service\<close>

text \<open>
  The worker is a Cloudflare module with one \<open>fetch\<close> entry point and three handlers
  (\<open>handleSignup\<close>, \<open>handleFeedback\<close>, \<open>handleUnsubscribe\<close>) that forward one request each
  to the Resend API. The repository holds the worker in several revisions; the embedding
  follows the one that has all three handlers and \<open>escapeHtml\<close>.

  JavaScript strings are modelled as lists of 8-bit code units (the Latin-1 range
  of UTF-16); \<open>trim\<close>, \<open>toLowerCase\<close> and \<open>encodeURIComponent\<close> are written out for
  that range. \<open>console.error\<close> has no effect on a response or on an upstream request and
  is left out.
\<close>

subsection \<open>String primitives\<close>

definition isWhiteSpace :: \<open>char \<Rightarrow> bool\<close> where
  \<comment> \<open>TAB, LF, VT, FF, CR, SP and NBSP: the white space and line terminators below U+0100.\<close>
  \<open>isWhiteSpace c = ((of_char c :: nat) \<in> {9, 10, 11, 12, 13, 32, 160})\<close>

definition trim :: \<open>string \<Rightarrow> string\<close> where
  \<open>trim s = rev (dropWhile isWhiteSpace (rev (dropWhile isWhiteSpace s)))\<close>

definition toLowerChar :: \<open>char \<Rightarrow> char\<close> where
  \<comment> \<open>A-Z, and the Latin-1 capitals U+00C0..U+00DE without the multiplication sign U+00D7.\<close>
  \<open>toLowerChar c =
     (let n = (of_char c :: nat)
      in if (65 \<le> n \<and> n \<le> 90) \<or> (192 \<le> n \<and> n \<le> 214) \<or> (216 \<le> n \<and> n \<le> 222)
         then char_of (n + 32) else c)\<close>

definition toLowerCase :: \<open>string \<Rightarrow> string\<close> where
  \<open>toLowerCase s = map toLowerChar s\<close>

fun startsWith :: \<open>string \<Rightarrow> string \<Rightarrow> bool\<close> where
  \<open>startsWith [] s = True\<close>
| \<open>startsWith (p # ps) [] = False\<close>
| \<open>startsWith (p # ps) (c # cs) = (p = c \<and> startsWith ps cs)\<close>

fun includesStr :: \<open>string \<Rightarrow> string \<Rightarrow> bool\<close> where
  \<comment> \<open>\<open>includesStr s needle\<close> is \<open>s.includes(needle)\<close> on strings.\<close>
  \<open>includesStr [] needle = (needle = [])\<close>
| \<open>includesStr (c # cs) needle = (startsWith needle (c # cs) \<or> includesStr cs needle)\<close>

subsection \<open>escapeHtml\<close>

definition escapeClass :: \<open>char list\<close> where
  \<comment> \<open>The character class of the regular expression \<open>/[&<>"']/g\<close>.\<close>
  \<open>escapeClass = [CHR ''&'', CHR ''<'', CHR ''>'', CHR 0x22, CHR 0x27]\<close>

definition escapeMap :: \<open>(char \<times> string) list\<close> where
  \<open>escapeMap =
     [(CHR ''&'', ''&amp;''),
      (CHR ''<'', ''&lt;''),
      (CHR ''>'', ''&gt;''),
      (CHR 0x22, ''&quot;''),
      (CHR 0x27, ''&#039;'')]\<close>

definition escapeChar :: \<open>char \<Rightarrow> string\<close> where
  \<comment> \<open>The replacement callback \<open>(char) => map[char]\<close>; a missing key would print as
      \<open>undefined\<close>.\<close>
  \<open>escapeChar c = (case map_of escapeMap c of Some r \<Rightarrow> r | None \<Rightarrow> ''undefined'')\<close>

definition escapeHtml :: \<open>string \<Rightarrow> string\<close> where
  \<comment> \<open>\<open>text.replace(/[&<>"']/g, (char) => map[char])\<close>: one pass, left to right; every
      character of the class is replaced by the callback's result, every other one kept.\<close>
  \<open>escapeHtml text = concat (map (\<lambda>c. if c \<in> set escapeClass then escapeChar c else [c]) text)\<close>

text \<open>
  The specification's reading of \<open>escapeHtml\<close>, for comparison with the code: the five
  replacements, each applied to every occurrence, in the order in which the
  specification lists them.
\<close>

definition replaceEvery :: \<open>char \<Rightarrow> string \<Rightarrow> string \<Rightarrow> string\<close> where
  \<open>replaceEvery c r s = concat (map (\<lambda>x. if x = c then r else [x]) s)\<close>

definition spec_escapeHtml :: \<open>string \<Rightarrow> string\<close> where
  \<open>spec_escapeHtml s =
     replaceEvery (CHR 0x27) ''&#039;''
       (replaceEvery (CHR 0x22) ''&quot;''
         (replaceEvery (CHR ''>'') ''&gt;''
           (replaceEvery (CHR ''<'') ''&lt;''
             (replaceEvery (CHR ''&'') ''&amp;'' s))))\<close>

definition htmlSpecials :: \<open>char set\<close> where
  \<open>htmlSpecials = {CHR ''<'', CHR ''>'', CHR 0x22, CHR 0x27}\<close>

definition replaceNewlines :: \<open>string \<Rightarrow> string\<close> where
  \<comment> \<open>\<open>.replace(/\n/g, '<br>')\<close>\<close>
  \<open>replaceNewlines s = concat (map (\<lambda>c. if c = CHR ''\<newline>'' then ''<br>'' else [c]) s)\<close>

subsection \<open>encodeURIComponent\<close>

definition uriUnreserved :: \<open>char \<Rightarrow> bool\<close> where
  \<open>uriUnreserved c =
     (c \<in> set ''ABCDEFGHIJKLMNOPQRSTUVWXYZabcdefghijklmnopqrstuvwxyz0123456789-_.!~*'()'')\<close>

definition hexDigit :: \<open>nat \<Rightarrow> char\<close> where
  \<open>hexDigit n = ''0123456789ABCDEF'' ! (n mod 16)\<close>

definition percentByte :: \<open>nat \<Rightarrow> string\<close> where
  \<open>percentByte b = [CHR ''%'', hexDigit (b div 16), hexDigit b]\<close>

definition encodeChar :: \<open>char \<Rightarrow> string\<close> where
  \<comment> \<open>Code units from U+0080 to U+00FF take two bytes in UTF-8.\<close>
  \<open>encodeChar c =
     (let n = (of_char c :: nat)
      in if uriUnreserved c then [c]
         else if n < 128 then percentByte n
         else percentByte (192 + n div 64) @ percentByte (128 + n mod 64))\<close>

definition encodeURIComponent :: \<open>string \<Rightarrow> string\<close> where
  \<open>encodeURIComponent s = concat (map encodeChar s)\<close>

subsection \<open>JSON values and JavaScript values\<close>

text \<open>
  What \<open>JSON.parse\<close> can return. A number carries an integer: the worker only tests a
  number for being zero. A JavaScript value that may be \<open>undefined\<close> is a
  \<open>json option\<close>, with \<open>None\<close> for \<open>undefined\<close>.
\<close>

datatype json =
    JNull
  | JBool bool
  | JNum int
  | JStr string
  | JArr \<open>json list\<close>
  | JObj \<open>(string \<times> json) list\<close>

datatype exn = SyntaxError | TypeError | NetworkError

fun truthy :: \<open>json option \<Rightarrow> bool\<close> where
  \<open>truthy None = False\<close>
| \<open>truthy (Some JNull) = False\<close>
| \<open>truthy (Some (JBool b)) = b\<close>
| \<open>truthy (Some (JNum n)) = (n \<noteq> 0)\<close>
| \<open>truthy (Some (JStr s)) = (s \<noteq> [])\<close>
| \<open>truthy (Some (JArr xs)) = True\<close>
| \<open>truthy (Some (JObj kvs)) = True\<close>

fun fieldOf :: \<open>json \<Rightarrow> string \<Rightarrow> json option\<close> where
  \<comment> \<open>\<open>v.key\<close> for the keys the worker reads (\<open>email\<close>, \<open>message\<close>, \<open>type\<close>), none of
      which a string, an array, a number or a boolean has; of a repeated key of an object
      \<open>JSON.parse\<close> keeps the last.\<close>
  \<open>fieldOf (JObj kvs) key = map_of (rev kvs) key\<close>
| \<open>fieldOf v key = None\<close>

definition getField :: \<open>json \<Rightarrow> string \<Rightarrow> exn + json option\<close> where
  \<comment> \<open>Reading a property of \<open>null\<close> raises a TypeError.\<close>
  \<open>getField v key = (if v = JNull then Inl TypeError else Inr (fieldOf v key))\<close>

subsection \<open>Environment, requests and responses\<close>

record env =
  RESEND_API_KEY :: string
  RESEND_AUDIENCE_ID :: string
  ADMIN_EMAIL :: string
  FORWARD_EMAIL :: string

text \<open>
  An incoming request: its method, the path of its URL, \<open>url.searchParams.get('email')\<close>
  (\<open>None\<close> for \<open>null\<close>) and what \<open>request.json()\<close> gives (\<open>None\<close> when it rejects
  with a SyntaxError).
\<close>

record request =
  reqMethod :: string
  pathname :: string
  searchEmail :: \<open>string option\<close>
  requestJson :: \<open>json option\<close>

datatype resp_body =
    NoBody
  | JsonBody json
  | UnsubscribePage

text \<open>
  \<open>JsonBody j\<close> is the body \<open>JSON.stringify(j)\<close>; \<open>UnsubscribePage\<close> is the constant
  page of \<open>getUnsubscribePageHTML\<close>, which interpolates nothing.
\<close>

record response =
  status :: nat
  headers :: \<open>(string \<times> string) list\<close>
  body :: resp_body

text \<open>
  A request to the provider, and the provider's answer: the \<open>fetch\<close> promise rejects,
  or it gives a response with a status and a body, of which the model keeps what
  \<open>response.json()\<close> gives (\<open>None\<close> when it rejects with a SyntaxError).
\<close>

record up_request =
  url :: string
  httpMethod :: string
  requestHeaders :: \<open>(string \<times> string) list\<close>
  payload :: json

datatype up_reply =
    Rejects
  | Reply nat \<open>json option\<close>

type_synonym provider = \<open>up_request \<Rightarrow> up_reply\<close>

definition ok :: \<open>nat \<Rightarrow> bool\<close> where
  \<open>ok st = (200 \<le> st \<and> st \<le> 299)\<close>

definition CORS_HEADERS :: \<open>(string \<times> string) list\<close> where
  \<open>CORS_HEADERS =
     [(''Access-Control-Allow-Origin'', ''*''),
      (''Access-Control-Allow-Methods'', ''POST, GET, OPTIONS''),
      (''Access-Control-Allow-Headers'', ''Content-Type'')]\<close>

definition jsonResponse :: \<open>nat \<Rightarrow> json \<Rightarrow> response\<close> where
  \<comment> \<open>\<open>new Response(JSON.stringify(j), {status, headers: {...CORS_HEADERS,
      'Content-Type': 'application/json'}})\<close>\<close>
  \<open>jsonResponse st j =
     \<lparr>status = st,
      headers = CORS_HEADERS @ [(''Content-Type'', ''application/json'')],
      body = JsonBody j\<rparr>\<close>

definition errorBody :: \<open>string \<Rightarrow> json\<close> where
  \<open>errorBody msg = JObj [(''error'', JStr msg)]\<close>

definition successBody :: \<open>string \<Rightarrow> json\<close> where
  \<open>successBody msg = JObj [(''success'', JBool True), (''message'', JStr msg)]\<close>

definition serverError :: response where
  \<comment> \<open>What each handler's \<open>catch\<close> returns.\<close>
  \<open>serverError = jsonResponse 500 (errorBody ''Server error'')\<close>

definition invalidEmail :: response where
  \<open>invalidEmail = jsonResponse 400 (errorBody ''Invalid email address'')\<close>

definition authHeaders :: \<open>env \<Rightarrow> (string \<times> string) list\<close> where
  \<open>authHeaders e =
     [(''Authorization'', ''Bearer '' @ RESEND_API_KEY e),
      (''Content-Type'', ''application/json'')]\<close>

subsection \<open>handleSignup\<close>

definition signupEmail :: \<open>json \<Rightarrow> exn + string option\<close> where
  \<comment> \<open>\<open>body.email?.trim().toLowerCase()\<close>: \<open>undefined\<close> for a missing or \<open>null\<close> email;
      a value that is no string has no \<open>trim\<close> to call.\<close>
  \<open>signupEmail b =
     (case getField b ''email'' of
        Inl e \<Rightarrow> Inl e
      | Inr None \<Rightarrow> Inr None
      | Inr (Some JNull) \<Rightarrow> Inr None
      | Inr (Some (JStr s)) \<Rightarrow> Inr (Some (toLowerCase (trim s)))
      | Inr (Some v) \<Rightarrow> Inl TypeError)\<close>

definition alreadyExists :: \<open>json \<Rightarrow> exn + bool\<close> where
  \<comment> \<open>\<open>result.message?.includes('already exists')\<close>: a string is searched for the
      substring, an array for the element; \<open>undefined\<close> counts as false in the \<open>if\<close>.\<close>
  \<open>alreadyExists result =
     (case getField result ''message'' of
        Inl e \<Rightarrow> Inl e
      | Inr None \<Rightarrow> Inr False
      | Inr (Some JNull) \<Rightarrow> Inr False
      | Inr (Some (JStr s)) \<Rightarrow> Inr (includesStr s ''already exists'')
      | Inr (Some (JArr xs)) \<Rightarrow> Inr (JStr ''already exists'' \<in> set xs)
      | Inr (Some v) \<Rightarrow> Inl TypeError)\<close>

definition signupRequest :: \<open>env \<Rightarrow> string \<Rightarrow> up_request\<close> where
  \<open>signupRequest e email =
     \<lparr>url = ''https://api.resend.com/audiences/'' @ RESEND_AUDIENCE_ID e @ ''/contacts'',
      httpMethod = ''POST'',
      requestHeaders = authHeaders e,
      payload = JObj [(''email'', JStr email), (''unsubscribed'', JBool False)]\<rparr>\<close>

text \<open>
  The body of a handler's \<open>try\<close> gives a response or raises; with it comes the list of
  the requests sent to the provider, in order.
\<close>

definition trySignup :: \<open>env \<Rightarrow> provider \<Rightarrow> json option \<Rightarrow> (exn + response) \<times> up_request list\<close> where
  \<open>trySignup e upstream rj =
     (case rj of
        None \<Rightarrow> (Inl SyntaxError, [])
      | Some b \<Rightarrow>
          (case signupEmail b of
             Inl x \<Rightarrow> (Inl x, [])
           | Inr None \<Rightarrow> (Inr invalidEmail, [])
           | Inr (Some email) \<Rightarrow>
               if email = [] \<or> \<not> includesStr email ''@'' then (Inr invalidEmail, [])
               else
                 (let req = signupRequest e email
                  in case upstream req of
                       Rejects \<Rightarrow> (Inl NetworkError, [req])
                     | Reply st None \<Rightarrow> (Inl SyntaxError, [req])
                     | Reply st (Some result) \<Rightarrow>
                         if \<not> ok st then
                           (case alreadyExists result of
                              Inl x \<Rightarrow> (Inl x, [req])
                            | Inr True \<Rightarrow>
                                (Inr (jsonResponse 200 (successBody ''Already subscribed!'')), [req])
                            | Inr False \<Rightarrow>
                                (Inr (jsonResponse 500 (errorBody ''Failed to subscribe'')), [req]))
                         else
                           (Inr (jsonResponse 200 (successBody ''Successfully subscribed!'')),
                            [req]))))\<close>

definition catchAll :: \<open>(exn + response) \<times> up_request list \<Rightarrow> response \<times> up_request list\<close> where
  \<comment> \<open>\<open>catch (error) { ... return 500 'Server error' }\<close>\<close>
  \<open>catchAll r = (case fst r of Inl x \<Rightarrow> (serverError, snd r) | Inr resp \<Rightarrow> (resp, snd r))\<close>

definition handleSignup :: \<open>env \<Rightarrow> provider \<Rightarrow> json option \<Rightarrow> response \<times> up_request list\<close> where
  \<open>handleSignup e upstream rj = catchAll (trySignup e upstream rj)\<close>

subsection \<open>handleFeedback\<close>

text \<open>
  \<open>type\<close> and \<open>email\<close> reach \<open>escapeHtml\<close> as \<open>type || 'Feedback'\<close> and
  \<open>email || 'Anonymous'\<close>. A value that is truthy and not a string has no \<open>replace\<close> to
  call there, and the TypeError ends the \<open>try\<close> before anything is sent; what gets
  through is a string or one of the falsy values.
\<close>

datatype str_or_falsy = FUndefined | FNull | FFalse | FZero | FStr string

fun strOrFalsy :: \<open>json option \<Rightarrow> exn + str_or_falsy\<close> where
  \<open>strOrFalsy None = Inr FUndefined\<close>
| \<open>strOrFalsy (Some JNull) = Inr FNull\<close>
| \<open>strOrFalsy (Some (JBool b)) = (if b then Inl TypeError else Inr FFalse)\<close>
| \<open>strOrFalsy (Some (JNum n)) = (if n \<noteq> 0 then Inl TypeError else Inr FZero)\<close>
| \<open>strOrFalsy (Some (JStr s)) = Inr (FStr s)\<close>
| \<open>strOrFalsy (Some (JArr xs)) = Inl TypeError\<close>
| \<open>strOrFalsy (Some (JObj kvs)) = Inl TypeError\<close>

fun orDefault :: \<open>str_or_falsy \<Rightarrow> string \<Rightarrow> string\<close> where
  \<comment> \<open>\<open>v || d\<close>\<close>
  \<open>orDefault (FStr s) d = (if s = [] then d else s)\<close>
| \<open>orDefault v d = d\<close>

fun templateText :: \<open>str_or_falsy \<Rightarrow> string\<close> where
  \<comment> \<open>\<open>${v}\<close> in a template literal\<close>
  \<open>templateText FUndefined = ''undefined''\<close>
| \<open>templateText FNull = ''null''\<close>
| \<open>templateText FFalse = ''false''\<close>
| \<open>templateText FZero = ''0''\<close>
| \<open>templateText (FStr s) = s\<close>

fun replyTo :: \<open>str_or_falsy \<Rightarrow> (string \<times> json) list\<close> where
  \<comment> \<open>\<open>reply_to: email || undefined\<close>; \<open>JSON.stringify\<close> drops an undefined field.\<close>
  \<open>replyTo (FStr s) = (if s = [] then [] else [(''reply_to'', JStr s)])\<close>
| \<open>replyTo v = []\<close>

definition htmlOpen :: string where
  \<open>htmlOpen = ''\<newline>          <div style="font-family: Arial, sans-serif; max-width: 600px; margin: 0 auto;">\<newline>            <h2 style="color: #FF3008;">New ''\<close>

definition htmlAfterType :: string where
  \<open>htmlAfterType = '' Received</h2>\<newline>            <div style="background: #f5f5f5; padding: 20px; border-radius: 8px; margin: 20px 0;">\<newline>              <p style="margin: 0; font-size: 16px; line-height: 1.6;">''\<close>

definition htmlAfterMessage :: string where
  \<open>htmlAfterMessage = ''</p>\<newline>            </div>\<newline>            <p style="color: #666; font-size: 14px;"><strong>From:</strong> ''\<close>

definition htmlAfterEmail :: string where
  \<open>htmlAfterEmail = ''</p>\<newline>            <p style="color: #999; font-size: 12px; margin-top: 16px;">Please forward to: ''\<close>

definition htmlClose :: string where
  \<open>htmlClose = ''</p>\<newline>            <hr style="border: none; border-top: 1px solid #eee; margin: 20px 0;">\<newline>            <p style="color: #999; font-size: 12px;">Sent from 50-Point Alerts feedback form</p>\<newline>          </div>\<newline>        ''\<close>

definition feedbackHtml :: \<open>env \<Rightarrow> string \<Rightarrow> str_or_falsy \<Rightarrow> str_or_falsy \<Rightarrow> string\<close> where
  \<comment> \<open>The template literal of the \<open>html\<close> field, hole by hole.\<close>
  \<open>feedbackHtml e message email type =
     htmlOpen @ escapeHtml (orDefault type ''Feedback'')
     @ htmlAfterType @ replaceNewlines (escapeHtml message)
     @ htmlAfterMessage @ escapeHtml (orDefault email ''Anonymous'')
     @ htmlAfterEmail @ FORWARD_EMAIL e
     @ htmlClose\<close>

definition feedbackSubject :: \<open>string \<Rightarrow> str_or_falsy \<Rightarrow> string\<close> where
  \<open>feedbackSubject message type =
     ''[50-Point Alerts] New '' @ orDefault type ''Feedback'' @ '': '' @ take 50 message @ ''...''\<close>

definition feedbackText :: \<open>env \<Rightarrow> string \<Rightarrow> str_or_falsy \<Rightarrow> str_or_falsy \<Rightarrow> string\<close> where
  \<open>feedbackText e message email type =
     ''New '' @ orDefault type ''Feedback'' @ '':\<newline>\<newline>'' @ message
     @ ''\<newline>\<newline>From: '' @ templateText email
     @ ''\<newline>\<newline>Please forward to: '' @ FORWARD_EMAIL e\<close>

definition feedbackRequest :: \<open>env \<Rightarrow> string \<Rightarrow> str_or_falsy \<Rightarrow> str_or_falsy \<Rightarrow> up_request\<close> where
  \<open>feedbackRequest e message email type =
     \<lparr>url = ''https://api.resend.com/emails'',
      httpMethod = ''POST'',
      requestHeaders = authHeaders e,
      payload =
        JObj ([(''from'', JStr ''50-Point Alerts <onboarding@resend.dev>''),
               (''to'', JStr (ADMIN_EMAIL e))]
              @ replyTo email
              @ [(''subject'', JStr (feedbackSubject message type)),
                 (''html'', JStr (feedbackHtml e message email type)),
                 (''text'', JStr (feedbackText e message email type))])\<rparr>\<close>

definition feedbackMessage :: \<open>json option \<Rightarrow> exn + string option\<close> where
  \<comment> \<open>\<open>!message || message.trim().length < 3\<close>: \<open>Inr None\<close> when the test holds,
      \<open>Inr (Some m)\<close> when the message passes; a truthy value that is no string has no
      \<open>trim\<close> to call.\<close>
  \<open>feedbackMessage v =
     (if \<not> truthy v then Inr None
      else case v of
             Some (JStr m) \<Rightarrow> if length (trim m) < 3 then Inr None else Inr (Some m)
           | _ \<Rightarrow> Inl TypeError)\<close>

definition tryFeedback :: \<open>env \<Rightarrow> provider \<Rightarrow> json option \<Rightarrow> (exn + response) \<times> up_request list\<close> where
  \<open>tryFeedback e upstream rj =
     (case rj of
        None \<Rightarrow> (Inl SyntaxError, [])
      | Some b \<Rightarrow>
          if b = JNull then (Inl TypeError, [])
          else
            (case feedbackMessage (fieldOf b ''message'') of
               Inl x \<Rightarrow> (Inl x, [])
             | Inr None \<Rightarrow> (Inr (jsonResponse 400 (errorBody ''Please enter a message'')), [])
             | Inr (Some message) \<Rightarrow>
                 (case strOrFalsy (fieldOf b ''type'') of
                    Inl x \<Rightarrow> (Inl x, [])
                  | Inr type \<Rightarrow>
                      (case strOrFalsy (fieldOf b ''email'') of
                         Inl x \<Rightarrow> (Inl x, [])
                       | Inr email \<Rightarrow>
                           (let req = feedbackRequest e message email type
                            in case upstream req of
                                 Rejects \<Rightarrow> (Inl NetworkError, [req])
                               | Reply st res \<Rightarrow>
                                   if \<not> ok st then
                                     (case res of
                                        None \<Rightarrow> (Inl SyntaxError, [req])
                                      | Some err \<Rightarrow>
                                          (Inr (jsonResponse 500
                                                 (errorBody ''Failed to send feedback'')), [req]))
                                   else
                                     (Inr (jsonResponse 200
                                            (successBody ''Feedback sent! Thanks for your input.'')),
                                      [req]))))))\<close>

definition handleFeedback :: \<open>env \<Rightarrow> provider \<Rightarrow> json option \<Rightarrow> response \<times> up_request list\<close> where
  \<open>handleFeedback e upstream rj = catchAll (tryFeedback e upstream rj)\<close>

subsection \<open>handleUnsubscribe\<close>

definition includesAt :: \<open>json option \<Rightarrow> exn + bool\<close> where
  \<comment> \<open>\<open>email.includes('@')\<close> on a truthy value: a string is searched for the character,
      an array for the element, and nothing else has \<open>includes\<close>.\<close>
  \<open>includesAt v =
     (case v of
        Some (JStr s) \<Rightarrow> Inr (includesStr s ''@'')
      | Some (JArr xs) \<Rightarrow> Inr (JStr ''@'' \<in> set xs)
      | _ \<Rightarrow> Inl TypeError)\<close>

definition unsubscribeRequest :: \<open>env \<Rightarrow> string \<Rightarrow> up_request\<close> where
  \<open>unsubscribeRequest e cleanEmail =
     \<lparr>url = ''https://api.resend.com/audiences/'' @ RESEND_AUDIENCE_ID e @ ''/contacts/''
            @ encodeURIComponent cleanEmail,
      httpMethod = ''PATCH'',
      requestHeaders = authHeaders e,
      payload = JObj [(''unsubscribed'', JBool True)]\<rparr>\<close>

definition tryUnsubscribe :: \<open>env \<Rightarrow> provider \<Rightarrow> json option \<Rightarrow> (exn + response) \<times> up_request list\<close> where
  \<open>tryUnsubscribe e upstream email =
     (if \<not> truthy email then (Inr invalidEmail, [])
      else
        (case includesAt email of
           Inl x \<Rightarrow> (Inl x, [])
         | Inr False \<Rightarrow> (Inr invalidEmail, [])
         | Inr True \<Rightarrow>
             (case email of
                Some (JStr s) \<Rightarrow>
                  (let cleanEmail = toLowerCase (trim s);
                       req = unsubscribeRequest e cleanEmail
                   in case upstream req of
                        Rejects \<Rightarrow> (Inl NetworkError, [req])
                      | Reply st res \<Rightarrow>
                          if \<not> ok st then
                            (case res of
                               None \<Rightarrow> (Inl SyntaxError, [req])
                             | Some result \<Rightarrow>
                                 if st = 404 then
                                   (Inr (jsonResponse 200
                                          (successBody ''You have been unsubscribed.'')), [req])
                                 else
                                   (Inr (jsonResponse 500
                                          (errorBody ''Failed to unsubscribe'')), [req]))
                          else
                            (Inr (jsonResponse 200
                                   (successBody ''You have been unsubscribed successfully.'')),
                             [req]))
              | _ \<Rightarrow> (Inl TypeError, []))))\<close>

definition handleUnsubscribe :: \<open>env \<Rightarrow> provider \<Rightarrow> json option \<Rightarrow> response \<times> up_request list\<close> where
  \<open>handleUnsubscribe e upstream email = catchAll (tryUnsubscribe e upstream email)\<close>

subsection \<open>The fetch entry point\<close>

definition preflight :: response where
  \<comment> \<open>\<open>new Response(null, { headers: CORS_HEADERS })\<close>; the status defaults to 200.\<close>
  \<open>preflight = \<lparr>status = 200, headers = CORS_HEADERS, body = NoBody\<rparr>\<close>

definition unsubscribePage :: response where
  \<open>unsubscribePage =
     \<lparr>status = 200,
      headers = CORS_HEADERS @ [(''Content-Type'', ''text/html'')],
      body = UnsubscribePage\<rparr>\<close>

definition methodNotAllowed :: response where
  \<open>methodNotAllowed = jsonResponse 405 (errorBody ''Method not allowed'')\<close>

text \<open>
  \<open>fetch\<close> gives \<open>Inl\<close> when the exception leaves the handler: on \<open>POST /unsubscribe\<close>
  the body is read outside every \<open>try\<close>.
\<close>

definition fetch :: \<open>env \<Rightarrow> provider \<Rightarrow> request \<Rightarrow> exn + response \<times> up_request list\<close> where
  \<open>fetch e upstream r =
     (if reqMethod r = ''OPTIONS'' then Inr (preflight, [])
      else if pathname r = ''/unsubscribe'' \<and> reqMethod r = ''GET'' then
        (case searchEmail r of
           None \<Rightarrow> Inr (unsubscribePage, [])
         | Some email \<Rightarrow>
             if email \<noteq> [] then Inr (handleUnsubscribe e upstream (Some (JStr email)))
             else Inr (unsubscribePage, []))
      else if pathname r = ''/unsubscribe'' \<and> reqMethod r = ''POST'' then
        (case requestJson r of
           None \<Rightarrow> Inl SyntaxError
         | Some b \<Rightarrow>
             (case getField b ''email'' of
                Inl x \<Rightarrow> Inl x
              | Inr email \<Rightarrow> Inr (handleUnsubscribe e upstream email)))
      else if reqMethod r \<noteq> ''POST'' then Inr (methodNotAllowed, [])
      else if pathname r = ''/feedback'' then Inr (handleFeedback e upstream (requestJson r))
      else Inr (handleSignup e upstream (requestJson r)))\<close>

subsection \<open>Failed provider calls\<close>

definition failed :: \<open>up_reply \<Rightarrow> bool\<close> where
  \<comment> \<open>The call to the provider fails: the promise rejects, or \<open>response.ok\<close> is false.\<close>
  \<open>failed r = (case r of Rejects \<Rightarrow> True | Reply st res \<Rightarrow> \<not> ok st)\<close>

subsection \<open>Sample inputs\<close>

definition sampleEnv :: env where
  \<open>sampleEnv =
     \<lparr>RESEND_API_KEY = ''re_key'', RESEND_AUDIENCE_ID = ''aud1'',
      ADMIN_EMAIL = ''admin@example.com'', FORWARD_EMAIL = ''forward@example.com''\<rparr>\<close>

definition notFoundNoJson :: provider where
  \<comment> \<open>A 404 whose body is no JSON document.\<close>
  \<open>notFoundNoJson req = Reply 404 None\<close>

definition notFoundJson :: provider where
  \<open>notFoundJson req = Reply 404 (Some (JObj [(''message'', JStr ''Contact not found'')]))\<close>

definition alreadyThere :: provider where
  \<open>alreadyThere req = Reply 409 (Some (JObj [(''message'', JStr ''Contact already exists'')]))\<close>

definition broken :: provider where
  \<open>broken req = Reply 503 (Some (JObj [(''message'', JStr ''Service unavailable'')]))\<close>

definition sampleFeedback :: json where
  \<open>sampleFeedback =
     JObj [(''message'', JStr ''<b>Great</b> site''), (''type'', JStr ''Idea''),
           (''email'', JStr ''fan@example.com'')]\<close>

definition preflightRequest :: request where
  \<open>preflightRequest =
     \<lparr>reqMethod = ''OPTIONS'', pathname = ''/'', searchEmail = None, requestJson = None\<rparr>\<close>

definition unsubscribeGet :: \<open>string \<Rightarrow> request\<close> where
  \<comment> \<open>\<open>GET /unsubscribe?email=E\<close>; a GET request has no body to parse.\<close>
  \<open>unsubscribeGet E =
     \<lparr>reqMethod = ''GET'', pathname = ''/unsubscribe'', searchEmail = Some E, requestJson = None\<rparr>\<close>

definition unsubscribePost :: \<open>string \<Rightarrow> request\<close> where
  \<comment> \<open>\<open>POST /unsubscribe\<close> with the body \<open>{email: E}\<close> and no query.\<close>
  \<open>unsubscribePost E =
     \<lparr>reqMethod = ''POST'', pathname = ''/unsubscribe'', searchEmail = None,
      requestJson = Some (JObj [(''email'', JStr E)])\<rparr>\<close>

section \<open>Properties\<close>

subsection \<open>escapeHtml\<close>

lemma replaceEvery_append:
  \<open>replaceEvery c r (xs @ ys) = replaceEvery c r xs @ replaceEvery c r ys\<close>
  by (simp add: replaceEvery_def)

lemma replaceEvery_Cons:
  \<open>replaceEvery c r (x # xs) = (if x = c then r else [x]) @ replaceEvery c r xs\<close>
  by (simp add: replaceEvery_def)

lemma replaceEvery_Nil: \<open>replaceEvery c r [] = []\<close>
  by (simp add: replaceEvery_def)

lemma escapeHtml_Nil: \<open>escapeHtml [] = []\<close>
  by (simp add: escapeHtml_def)

lemma escapeHtml_Cons:
  \<open>escapeHtml (c # cs) =
     (if c = CHR ''&'' then ''&amp;''
      else if c = CHR ''<'' then ''&lt;''
      else if c = CHR ''>'' then ''&gt;''
      else if c = CHR 0x22 then ''&quot;''
      else if c = CHR 0x27 then ''&#039;''
      else [c]) @ escapeHtml cs\<close>
  by (simp add: escapeHtml_def escapeClass_def escapeChar_def escapeMap_def)

lemma escapeHtml_append: \<open>escapeHtml (xs @ ys) = escapeHtml xs @ escapeHtml ys\<close>
  by (simp add: escapeHtml_def)

lemma spec_escapeHtml_Cons:
  \<open>spec_escapeHtml (c # cs) = spec_escapeHtml [c] @ spec_escapeHtml cs\<close>
proof -
  have \<open>c # cs = [c] @ cs\<close> by simp
  then show ?thesis
    unfolding spec_escapeHtml_def by (simp only: replaceEvery_append)
qed

lemma spec_escapeHtml_single:
  \<open>spec_escapeHtml [c] =
     (if c = CHR ''&'' then ''&amp;''
      else if c = CHR ''<'' then ''&lt;''
      else if c = CHR ''>'' then ''&gt;''
      else if c = CHR 0x22 then ''&quot;''
      else if c = CHR 0x27 then ''&#039;''
      else [c])\<close>
  by (simp add: spec_escapeHtml_def replaceEvery_Cons replaceEvery_Nil)

lemma escapeHtml_refines_spec: \<open>escapeHtml s = spec_escapeHtml s\<close>
proof (induction s)
  case Nil
  show ?case by (simp add: escapeHtml_Nil spec_escapeHtml_def replaceEvery_Nil)
next
  case (Cons c cs)
  have \<open>spec_escapeHtml (c # cs) = spec_escapeHtml [c] @ spec_escapeHtml cs\<close>
    by (rule spec_escapeHtml_Cons)
  with Cons show ?case
    by (simp only: escapeHtml_Cons spec_escapeHtml_single)
qed

lemma escapeHtml_no_specials: \<open>set (escapeHtml s) \<inter> htmlSpecials = {}\<close>
proof (induction s)
  case Nil
  show ?case by (simp add: escapeHtml_Nil)
next
  case (Cons c cs)
  then show ?case
    by (auto simp: escapeHtml_Cons htmlSpecials_def)
qed

text \<open>
  Claim C9. For every string \<open>s\<close>, \<open>escapeHtml s\<close> is \<open>s\<close> with every \<open>&\<close> replaced by
  \<open>&amp;\<close>, every \<open><\<close> by \<open>&lt;\<close>, every \<open>>\<close> by \<open>&gt;\<close>, every double quote by
  \<open>&quot;\<close> and every single quote by \<open>&#039;\<close>; so the result contains none of the
  characters \<open><\<close>, \<open>>\<close>, double quote and single quote.
\<close>

theorem escapeHtml_replaces_all:
  \<open>escapeHtml s = spec_escapeHtml s \<and> set (escapeHtml s) \<inter> htmlSpecials = {}\<close>
  by (simp only: escapeHtml_refines_spec [symmetric] escapeHtml_no_specials simp_thms)

subsection \<open>Strings\<close>

lemma startsWith_iff: \<open>startsWith p s \<longleftrightarrow> (\<exists>q. s = p @ q)\<close>
  by (induction p s rule: startsWith.induct) auto

lemma includesStr_iff: \<open>includesStr s n \<longleftrightarrow> (\<exists>p q. s = p @ n @ q)\<close>
proof (induction s)
  case Nil
  show ?case by simp
next
  case (Cons c cs)
  show ?case
  proof
    assume \<open>includesStr (c # cs) n\<close>
    then consider \<open>startsWith n (c # cs)\<close> | \<open>includesStr cs n\<close> by auto
    then show \<open>\<exists>p q. c # cs = p @ n @ q\<close>
    proof cases
      case 1
      then obtain q where \<open>c # cs = n @ q\<close> using startsWith_iff by blast
      then have \<open>c # cs = [] @ n @ q\<close> by simp
      then show ?thesis by blast
    next
      case 2
      then obtain p q where \<open>cs = p @ n @ q\<close> using Cons.IH by blast
      then have \<open>c # cs = (c # p) @ n @ q\<close> by simp
      then show ?thesis by blast
    qed
  next
    assume \<open>\<exists>p q. c # cs = p @ n @ q\<close>
    then obtain p q where pq: \<open>c # cs = p @ n @ q\<close> by blast
    show \<open>includesStr (c # cs) n\<close>
    proof (cases p)
      case Nil
      with pq have \<open>startsWith n (c # cs)\<close> using startsWith_iff by auto
      then show ?thesis by simp
    next
      case (Cons a p')
      with pq have \<open>cs = p' @ n @ q\<close> by simp
      then have \<open>includesStr cs n\<close> using Cons.IH by blast
      then show ?thesis by simp
    qed
  qed
qed

lemma includesStr_char: \<open>includesStr s [c] \<longleftrightarrow> c \<in> set s\<close>
  by (induction s) auto

lemma at_not_space: \<open>\<not> isWhiteSpace (CHR ''@'')\<close>
  by (simp add: isWhiteSpace_def)

lemma toLowerChar_at: \<open>toLowerChar c = CHR ''@'' \<longleftrightarrow> c = CHR ''@''\<close>
proof
  assume a: \<open>toLowerChar c = CHR ''@''\<close>
  define n where \<open>n = (of_char c :: nat)\<close>
  have lt: \<open>n < 256\<close> by (simp add: n_def)
  show \<open>c = CHR ''@''\<close>
  proof (cases \<open>(65 \<le> n \<and> n \<le> 90) \<or> (192 \<le> n \<and> n \<le> 214) \<or> (216 \<le> n \<and> n \<le> 222)\<close>)
    case True
    then have \<open>toLowerChar c = char_of (n + 32)\<close>
      by (simp add: toLowerChar_def n_def Let_def)
    with a have \<open>(of_char (char_of (n + 32)) :: nat) = of_char (CHR ''@'')\<close> by simp
    then have \<open>(n + 32) mod 256 = 64\<close> by simp
    with True lt show ?thesis by auto
  next
    case False
    then have \<open>toLowerChar c = c\<close>
      by (auto simp: toLowerChar_def n_def Let_def)
    with a show ?thesis by simp
  qed
next
  assume \<open>c = CHR ''@''\<close>
  then show \<open>toLowerChar c = CHR ''@''\<close>
    by (simp add: toLowerChar_def)
qed

lemma set_trim_subset: \<open>x \<in> set (trim s) \<Longrightarrow> x \<in> set s\<close>
proof -
  assume \<open>x \<in> set (trim s)\<close>
  then have \<open>x \<in> set (dropWhile isWhiteSpace (rev (dropWhile isWhiteSpace s)))\<close>
    by (simp add: trim_def)
  then have \<open>x \<in> set (rev (dropWhile isWhiteSpace s))\<close>
    by (rule set_dropWhileD)
  then have \<open>x \<in> set (dropWhile isWhiteSpace s)\<close> by simp
  then show \<open>x \<in> set s\<close> by (rule set_dropWhileD)
qed

lemma in_dropWhile: \<open>x \<in> set xs \<Longrightarrow> \<not> P x \<Longrightarrow> x \<in> set (dropWhile P xs)\<close>
  by (induction xs) auto

lemma in_trim: \<open>x \<in> set s \<Longrightarrow> \<not> isWhiteSpace x \<Longrightarrow> x \<in> set (trim s)\<close>
  by (simp add: trim_def in_dropWhile)

lemma at_in_normalised:
  \<open>CHR ''@'' \<in> set (toLowerCase (trim s)) \<longleftrightarrow> CHR ''@'' \<in> set s\<close>
proof
  assume \<open>CHR ''@'' \<in> set (toLowerCase (trim s))\<close>
  then obtain c where c: \<open>c \<in> set (trim s)\<close> \<open>toLowerChar c = CHR ''@''\<close>
    by (auto simp: toLowerCase_def)
  then have \<open>c = CHR ''@''\<close> by (simp add: toLowerChar_at)
  with c show \<open>CHR ''@'' \<in> set s\<close> using set_trim_subset by blast
next
  assume \<open>CHR ''@'' \<in> set s\<close>
  then have \<open>CHR ''@'' \<in> set (trim s)\<close> by (rule in_trim) (rule at_not_space)
  then have \<open>toLowerChar (CHR ''@'') \<in> set (toLowerCase (trim s))\<close>
    by (simp add: toLowerCase_def)
  moreover have \<open>toLowerChar (CHR ''@'') = CHR ''@''\<close>
    by (simp add: toLowerChar_def)
  ultimately show \<open>CHR ''@'' \<in> set (toLowerCase (trim s))\<close>
    by simp
qed


subsection \<open>Responses\<close>

lemma status_serverError: \<open>status serverError = 500\<close>
  by (simp add: serverError_def jsonResponse_def)

lemma body_serverError: \<open>body serverError = JsonBody (JObj [(''error'', JStr ''Server error'')])\<close>
  by (simp add: serverError_def jsonResponse_def errorBody_def)

lemma status_jsonResponse: \<open>status (jsonResponse st j) = st\<close>
  by (simp add: jsonResponse_def)

lemma body_jsonResponse: \<open>body (jsonResponse st j) = JsonBody j\<close>
  by (simp add: jsonResponse_def)

lemma headers_jsonResponse:
  \<open>headers (jsonResponse st j) = CORS_HEADERS @ [(''Content-Type'', ''application/json'')]\<close>
  by (simp add: jsonResponse_def)


subsection \<open>The handlers, case by case\<close>

text \<open>
  Each handler either stops before it calls the provider, with one of two constant
  responses, or its input is well typed and the response depends on the provider's answer
  alone.
\<close>

lemma catchAll_Inr: \<open>catchAll (Inr r, calls) = (r, calls)\<close>
  by (simp add: catchAll_def)

lemma catchAll_Inl: \<open>catchAll (Inl x, calls) = (serverError, calls)\<close>
  by (simp add: catchAll_def)

lemma handleUnsubscribe_string:
  \<open>handleUnsubscribe e upstream (Some (JStr s)) =
     (if CHR ''@'' \<in> set s then
        (let req = unsubscribeRequest e (toLowerCase (trim s))
         in (case upstream req of
               Rejects \<Rightarrow> serverError
             | Reply st res \<Rightarrow>
                 if ok st then jsonResponse 200 (successBody ''You have been unsubscribed successfully.'')
                 else (case res of
                         None \<Rightarrow> serverError
                       | Some result \<Rightarrow>
                           if st = 404 then jsonResponse 200 (successBody ''You have been unsubscribed.'')
                           else jsonResponse 500 (errorBody ''Failed to unsubscribe'')),
             [req]))
      else (invalidEmail, []))\<close>
  by (auto simp: handleUnsubscribe_def tryUnsubscribe_def includesAt_def includesStr_char
      catchAll_Inr catchAll_Inl Let_def split: up_reply.splits option.splits)

lemma includesAt_cases:
  \<open>\<not> truthy v \<or> includesAt v = Inl TypeError
   \<or> (\<exists>xs. v = Some (JArr xs)) \<or> (\<exists>s. v = Some (JStr s) \<and> s \<noteq> [])\<close>
proof (cases v)
  case None
  then show ?thesis by simp
next
  case (Some j)
  then show ?thesis by (cases j) (simp_all add: includesAt_def)
qed

lemma unsubscribe_cases:
  \<open>handleUnsubscribe e upstream v = (serverError, [])
   \<or> handleUnsubscribe e upstream v = (invalidEmail, [])
   \<or> (\<exists>s. v = Some (JStr s) \<and> CHR ''@'' \<in> set s)\<close>
proof -
  consider \<open>\<not> truthy v\<close> | \<open>truthy v\<close> \<open>includesAt v = Inl TypeError\<close>
    | xs where \<open>v = Some (JArr xs)\<close> | s where \<open>v = Some (JStr s)\<close>
    using includesAt_cases by blast
  then show ?thesis
  proof cases
    case 1
    then show ?thesis by (simp add: handleUnsubscribe_def tryUnsubscribe_def catchAll_Inr)
  next
    case 2
    then show ?thesis by (simp add: handleUnsubscribe_def tryUnsubscribe_def catchAll_Inl)
  next
    case 3
    then show ?thesis
      by (cases \<open>JStr ''@'' \<in> set xs\<close>)
        (simp_all add: handleUnsubscribe_def tryUnsubscribe_def includesAt_def catchAll_Inl
          catchAll_Inr)
  next
    case 4
    then show ?thesis by (simp add: handleUnsubscribe_string)
  qed
qed

lemma handleSignup_string:
  assumes \<open>fieldOf b ''email'' = Some (JStr s)\<close>
  shows \<open>handleSignup e upstream (Some b) =
     (let email = toLowerCase (trim s)
      in if CHR ''@'' \<in> set email then
           (let req = signupRequest e email
            in (case upstream req of
                  Rejects \<Rightarrow> serverError
                | Reply st None \<Rightarrow> serverError
                | Reply st (Some result) \<Rightarrow>
                    if ok st then jsonResponse 200 (successBody ''Successfully subscribed!'')
                    else (case alreadyExists result of
                            Inl x \<Rightarrow> serverError
                          | Inr True \<Rightarrow> jsonResponse 200 (successBody ''Already subscribed!'')
                          | Inr False \<Rightarrow> jsonResponse 500 (errorBody ''Failed to subscribe'')),
                [req]))
         else (invalidEmail, []))\<close>
proof -
  from assms have \<open>b \<noteq> JNull\<close> by auto
  with assms have \<open>signupEmail b = Inr (Some (toLowerCase (trim s)))\<close>
    by (simp add: signupEmail_def getField_def)
  then show ?thesis
    by (auto simp: handleSignup_def trySignup_def includesStr_char catchAll_Inr catchAll_Inl
        Let_def split: up_reply.splits option.splits sum.splits bool.splits)
qed

lemma handleSignup_absent:
  assumes \<open>b \<noteq> JNull\<close>
    and \<open>fieldOf b ''email'' = None \<or> fieldOf b ''email'' = Some JNull\<close>
  shows \<open>handleSignup e upstream (Some b) = (invalidEmail, [])\<close>
proof -
  from assms have \<open>signupEmail b = Inr None\<close>
    by (auto simp: signupEmail_def getField_def)
  then show ?thesis
    by (simp add: handleSignup_def trySignup_def catchAll_Inr)
qed

lemma handleSignup_raises:
  assumes \<open>rj = None \<or> rj = Some JNull
     \<or> (\<exists>b v. rj = Some b \<and> fieldOf b ''email'' = Some v \<and> v \<noteq> JNull \<and> (\<forall>s. v \<noteq> JStr s))\<close>
  shows \<open>handleSignup e upstream rj = (serverError, [])\<close>
proof -
  consider \<open>rj = None\<close> | \<open>rj = Some JNull\<close>
    | b v where \<open>rj = Some b\<close> \<open>fieldOf b ''email'' = Some v\<close> \<open>v \<noteq> JNull\<close> \<open>\<forall>s. v \<noteq> JStr s\<close>
    using assms by blast
  then show ?thesis
  proof cases
    case 1
    then show ?thesis by (simp add: handleSignup_def trySignup_def catchAll_Inl)
  next
    case 2
    then show ?thesis
      by (simp add: handleSignup_def trySignup_def signupEmail_def getField_def catchAll_Inl)
  next
    case 3
    then have \<open>b \<noteq> JNull\<close> by auto
    with 3 have \<open>signupEmail b = Inl TypeError\<close>
      by (cases v) (simp_all add: signupEmail_def getField_def)
    with 3 show ?thesis by (simp add: handleSignup_def trySignup_def catchAll_Inl)
  qed
qed

lemma signup_cases:
  \<open>handleSignup e upstream rj = (serverError, [])
   \<or> handleSignup e upstream rj = (invalidEmail, [])
   \<or> (\<exists>b s. rj = Some b \<and> fieldOf b ''email'' = Some (JStr s)
         \<and> CHR ''@'' \<in> set (toLowerCase (trim s)))\<close>
proof (cases rj)
  case None
  then show ?thesis by (simp add: handleSignup_raises)
next
  case (Some b)
  show ?thesis
  proof (cases \<open>b = JNull\<close>)
    case True
    with Some show ?thesis by (simp add: handleSignup_raises)
  next
    case nn: False
    show ?thesis
    proof (cases \<open>fieldOf b ''email''\<close>)
      case None
      with nn Some show ?thesis by (simp add: handleSignup_absent)
    next
      case v: (Some v)
      show ?thesis
      proof (cases \<open>v = JNull\<close>)
        case True
        with nn Some v show ?thesis by (simp add: handleSignup_absent)
      next
        case vn: False
        show ?thesis
        proof (cases \<open>\<exists>s. v = JStr s\<close>)
          case True
          then obtain s where \<open>v = JStr s\<close> by blast
          with v Some show ?thesis by (simp add: handleSignup_string Let_def)
        next
          case False
          with vn v Some have \<open>handleSignup e upstream rj = (serverError, [])\<close>
            by (intro handleSignup_raises) blast
          then show ?thesis by simp
        qed
      qed
    qed
  qed
qed

lemma handleFeedback_sent:
  assumes \<open>b \<noteq> JNull\<close> and \<open>fieldOf b ''message'' = Some (JStr m)\<close>
    and \<open>3 \<le> length (trim m)\<close>
    and \<open>strOrFalsy (fieldOf b ''type'') = Inr t\<close>
    and \<open>strOrFalsy (fieldOf b ''email'') = Inr em\<close>
  shows \<open>handleFeedback e upstream (Some b) =
     (let req = feedbackRequest e m em t
      in (case upstream req of
            Rejects \<Rightarrow> serverError
          | Reply st res \<Rightarrow>
              if ok st then jsonResponse 200 (successBody ''Feedback sent! Thanks for your input.'')
              else (case res of
                      None \<Rightarrow> serverError
                    | Some err \<Rightarrow> jsonResponse 500 (errorBody ''Failed to send feedback'')),
          [req]))\<close>
proof -
  from assms(3) have \<open>trim m \<noteq> []\<close> by auto
  then have \<open>m \<noteq> []\<close> by (auto simp: trim_def)
  with assms(3) have \<open>feedbackMessage (Some (JStr m)) = Inr (Some m)\<close>
    by (simp add: feedbackMessage_def)
  with assms show ?thesis
    by (auto simp: handleFeedback_def tryFeedback_def catchAll_Inr catchAll_Inl Let_def
        split: up_reply.splits option.splits)
qed

lemma feedbackMessage_cases:
  \<open>feedbackMessage v = Inl TypeError \<or> feedbackMessage v = Inr None
   \<or> (\<exists>m. v = Some (JStr m) \<and> 3 \<le> length (trim m) \<and> feedbackMessage v = Inr (Some m))\<close>
proof (cases v)
  case None
  then show ?thesis by (simp add: feedbackMessage_def)
next
  case (Some j)
  then show ?thesis by (cases j) (simp_all add: feedbackMessage_def)
qed

lemma feedback_cases:
  \<open>handleFeedback e upstream rj = (serverError, [])
   \<or> handleFeedback e upstream rj = (jsonResponse 400 (errorBody ''Please enter a message''), [])
   \<or> (\<exists>b m t em. rj = Some b \<and> b \<noteq> JNull \<and> fieldOf b ''message'' = Some (JStr m)
         \<and> 3 \<le> length (trim m) \<and> strOrFalsy (fieldOf b ''type'') = Inr t
         \<and> strOrFalsy (fieldOf b ''email'') = Inr em)\<close>
proof (cases rj)
  case None
  then show ?thesis by (simp add: handleFeedback_def tryFeedback_def catchAll_Inl)
next
  case (Some b)
  show ?thesis
  proof (cases \<open>b = JNull\<close>)
    case True
    with Some show ?thesis by (simp add: handleFeedback_def tryFeedback_def catchAll_Inl)
  next
    case nn: False
    consider \<open>feedbackMessage (fieldOf b ''message'') = Inl TypeError\<close>
      | \<open>feedbackMessage (fieldOf b ''message'') = Inr None\<close>
      | m where \<open>fieldOf b ''message'' = Some (JStr m)\<close> \<open>3 \<le> length (trim m)\<close>
          \<open>feedbackMessage (fieldOf b ''message'') = Inr (Some m)\<close>
      using feedbackMessage_cases by blast
    then show ?thesis
    proof cases
      case 1
      with Some nn show ?thesis by (simp add: handleFeedback_def tryFeedback_def catchAll_Inl)
    next
      case 2
      with Some nn show ?thesis by (simp add: handleFeedback_def tryFeedback_def catchAll_Inr)
    next
      case 3
      show ?thesis
      proof (cases \<open>strOrFalsy (fieldOf b ''type'')\<close>)
        case (Inl x)
        with 3 Some nn show ?thesis
          by (simp add: handleFeedback_def tryFeedback_def catchAll_Inl)
      next
        case t: (Inr t)
        show ?thesis
        proof (cases \<open>strOrFalsy (fieldOf b ''email'')\<close>)
          case (Inl x)
          with t 3 Some nn show ?thesis
            by (simp add: handleFeedback_def tryFeedback_def catchAll_Inl)
        next
          case (Inr em)
          with t 3 Some nn show ?thesis by blast
        qed
      qed
    qed
  qed
qed

lemma signup_responses:
  \<open>fst (handleSignup e upstream rj) \<in>
     {invalidEmail, serverError,
      jsonResponse 200 (successBody ''Already subscribed!''),
      jsonResponse 500 (errorBody ''Failed to subscribe''),
      jsonResponse 200 (successBody ''Successfully subscribed!'')}\<close>
proof -
  consider \<open>handleSignup e upstream rj = (serverError, [])\<close>
    | \<open>handleSignup e upstream rj = (invalidEmail, [])\<close>
    | b s where \<open>rj = Some b\<close> \<open>fieldOf b ''email'' = Some (JStr s)\<close>
        \<open>CHR ''@'' \<in> set (toLowerCase (trim s))\<close>
    using signup_cases by blast
  then show ?thesis
  proof cases
    case 3
    then show ?thesis
      by (simp add: handleSignup_string Let_def split: up_reply.splits option.splits
          sum.splits bool.splits)
  qed simp_all
qed

lemma feedback_responses:
  \<open>fst (handleFeedback e upstream rj) \<in>
     {jsonResponse 400 (errorBody ''Please enter a message''), serverError,
      jsonResponse 500 (errorBody ''Failed to send feedback''),
      jsonResponse 200 (successBody ''Feedback sent! Thanks for your input.'')}\<close>
proof -
  consider \<open>handleFeedback e upstream rj = (serverError, [])\<close>
    | \<open>handleFeedback e upstream rj = (jsonResponse 400 (errorBody ''Please enter a message''), [])\<close>
    | b m t em where \<open>rj = Some b\<close> \<open>b \<noteq> JNull\<close> \<open>fieldOf b ''message'' = Some (JStr m)\<close>
        \<open>3 \<le> length (trim m)\<close> \<open>strOrFalsy (fieldOf b ''type'') = Inr t\<close>
        \<open>strOrFalsy (fieldOf b ''email'') = Inr em\<close>
    using feedback_cases by blast
  then show ?thesis
  proof cases
    case 3
    then show ?thesis
      by (simp add: handleFeedback_sent Let_def split: up_reply.splits option.splits)
  qed simp_all
qed

lemma unsubscribe_responses:
  \<open>fst (handleUnsubscribe e upstream v) \<in>
     {invalidEmail, serverError,
      jsonResponse 200 (successBody ''You have been unsubscribed.''),
      jsonResponse 500 (errorBody ''Failed to unsubscribe''),
      jsonResponse 200 (successBody ''You have been unsubscribed successfully.'')}\<close>
proof -
  consider \<open>handleUnsubscribe e upstream v = (serverError, [])\<close>
    | \<open>handleUnsubscribe e upstream v = (invalidEmail, [])\<close>
    | s where \<open>v = Some (JStr s)\<close> \<open>CHR ''@'' \<in> set s\<close>
    using unsubscribe_cases by blast
  then show ?thesis
  proof cases
    case 3
    then show ?thesis
      by (simp add: handleUnsubscribe_string Let_def split: up_reply.splits option.splits)
  qed simp_all
qed

lemma signup_failed:
  assumes \<open>req \<in> set (snd (handleSignup e upstream rj))\<close> and \<open>failed (upstream req)\<close>
    and \<open>\<forall>st result. upstream req = Reply st (Some result) \<longrightarrow> alreadyExists result \<noteq> Inr True\<close>
  shows \<open>snd (handleSignup e upstream rj) = [req]
    \<and> fst (handleSignup e upstream rj)
        \<in> {serverError, jsonResponse 500 (errorBody ''Failed to subscribe'')}\<close>
proof -
  consider \<open>handleSignup e upstream rj = (serverError, [])\<close>
    | \<open>handleSignup e upstream rj = (invalidEmail, [])\<close>
    | b s where \<open>rj = Some b\<close> \<open>fieldOf b ''email'' = Some (JStr s)\<close>
        \<open>CHR ''@'' \<in> set (toLowerCase (trim s))\<close>
    using signup_cases by blast
  then show ?thesis
  proof cases
    case 1
    with assms(1) show ?thesis by simp
  next
    case 2
    with assms(1) show ?thesis by simp
  next
    case 3
    with assms(1) have r: \<open>req = signupRequest e (toLowerCase (trim s))\<close>
      by (simp add: handleSignup_string Let_def)
    show ?thesis
    proof (cases \<open>upstream req\<close>)
      case Rejects
      with 3 r show ?thesis by (simp add: handleSignup_string Let_def)
    next
      case (Reply st res)
      with assms(2) have nok: \<open>\<not> ok st\<close> by (simp add: failed_def)
      show ?thesis
      proof (cases res)
        case None
        with Reply 3 r show ?thesis by (simp add: handleSignup_string Let_def)
      next
        case (Some result)
        with Reply assms(3) have \<open>alreadyExists result \<noteq> Inr True\<close> by blast
        with Some Reply 3 r nok show ?thesis
          by (simp add: handleSignup_string Let_def split: sum.splits bool.splits)
      qed
    qed
  qed
qed

lemma feedback_failed:
  assumes \<open>req \<in> set (snd (handleFeedback e upstream rj))\<close> and \<open>failed (upstream req)\<close>
  shows \<open>snd (handleFeedback e upstream rj) = [req]
    \<and> fst (handleFeedback e upstream rj)
        \<in> {serverError, jsonResponse 500 (errorBody ''Failed to send feedback'')}\<close>
proof -
  consider \<open>handleFeedback e upstream rj = (serverError, [])\<close>
    | \<open>handleFeedback e upstream rj = (jsonResponse 400 (errorBody ''Please enter a message''), [])\<close>
    | b m t em where \<open>rj = Some b\<close> \<open>b \<noteq> JNull\<close> \<open>fieldOf b ''message'' = Some (JStr m)\<close>
        \<open>3 \<le> length (trim m)\<close> \<open>strOrFalsy (fieldOf b ''type'') = Inr t\<close>
        \<open>strOrFalsy (fieldOf b ''email'') = Inr em\<close>
    using feedback_cases by blast
  then show ?thesis
  proof cases
    case 1
    with assms(1) show ?thesis by simp
  next
    case 2
    with assms(1) show ?thesis by simp
  next
    case 3
    then have h: \<open>handleFeedback e upstream rj =
       (case upstream (feedbackRequest e m em t) of
          Rejects \<Rightarrow> serverError
        | Reply st res \<Rightarrow>
            if ok st then jsonResponse 200 (successBody ''Feedback sent! Thanks for your input.'')
            else (case res of
                    None \<Rightarrow> serverError
                  | Some err \<Rightarrow> jsonResponse 500 (errorBody ''Failed to send feedback'')),
        [feedbackRequest e m em t])\<close>
      by (simp add: handleFeedback_sent Let_def)
    with assms(1) have r: \<open>req = feedbackRequest e m em t\<close> by simp
    from assms(2) h r show ?thesis
      by (simp add: failed_def split: up_reply.splits option.splits)
  qed
qed

lemma unsubscribe_failed:
  assumes \<open>req \<in> set (snd (handleUnsubscribe e upstream v))\<close> and \<open>failed (upstream req)\<close>
    and \<open>\<forall>res. upstream req \<noteq> Reply 404 res\<close>
  shows \<open>snd (handleUnsubscribe e upstream v) = [req]
    \<and> fst (handleUnsubscribe e upstream v)
        \<in> {serverError, jsonResponse 500 (errorBody ''Failed to unsubscribe'')}\<close>
proof -
  consider \<open>handleUnsubscribe e upstream v = (serverError, [])\<close>
    | \<open>handleUnsubscribe e upstream v = (invalidEmail, [])\<close>
    | s where \<open>v = Some (JStr s)\<close> \<open>CHR ''@'' \<in> set s\<close>
    using unsubscribe_cases by blast
  then show ?thesis
  proof cases
    case 1
    with assms(1) show ?thesis by simp
  next
    case 2
    with assms(1) show ?thesis by simp
  next
    case 3
    with assms(1) have r: \<open>req = unsubscribeRequest e (toLowerCase (trim s))\<close>
      by (simp add: handleUnsubscribe_string Let_def)
    from assms(2,3) 3 r show ?thesis
      by (auto simp: handleUnsubscribe_string Let_def failed_def
          split: up_reply.splits option.splits)
  qed
qed

lemma replyTo_cases: \<open>replyTo v = [] \<or> (\<exists>s. replyTo v = [(''reply_to'', JStr s)])\<close>
  by (cases v) simp_all

lemma html_of_feedbackRequest:
  \<open>fieldOf (payload (feedbackRequest e m em t)) ''html'' = Some (JStr (feedbackHtml e m em t))\<close>
  using replyTo_cases [of em] by (auto simp: feedbackRequest_def)


subsection \<open>The routes of fetch\<close>

lemma fetch_cases:
  assumes \<open>fetch e upstream r = Inr (resp, calls)\<close>
  shows \<open>(reqMethod r = ''OPTIONS'' \<and> resp = preflight)
    \<or> (reqMethod r = ''GET'' \<and> pathname r = ''/unsubscribe''
        \<and> (searchEmail r = None \<or> searchEmail r = Some []) \<and> resp = unsubscribePage)
    \<or> resp = methodNotAllowed
    \<or> (\<exists>v. resp = fst (handleUnsubscribe e upstream v))
    \<or> resp = fst (handleFeedback e upstream (requestJson r))
    \<or> resp = fst (handleSignup e upstream (requestJson r))\<close>
  using assms
  by (auto simp: fetch_def split: if_splits option.splits sum.splits; metis fst_conv)

lemma fetch_raises:
  assumes \<open>fetch e upstream r = Inl x\<close>
  shows \<open>reqMethod r = ''POST'' \<and> pathname r = ''/unsubscribe''
    \<and> (requestJson r = None \<or> requestJson r = Some JNull)\<close>
  using assms
  by (auto simp: fetch_def getField_def split: if_splits option.splits sum.splits)

lemma signup_envelope:
  \<open>status (fst (handleSignup e upstream rj)) \<in> {200, 400, 500}
   \<and> headers (fst (handleSignup e upstream rj))
       = CORS_HEADERS @ [(''Content-Type'', ''application/json'')]
   \<and> ((\<exists>msg. body (fst (handleSignup e upstream rj)) = JsonBody (successBody msg))
      \<or> (\<exists>msg. body (fst (handleSignup e upstream rj)) = JsonBody (errorBody msg)))\<close>
  using signup_responses [of e upstream rj]
  by (auto simp: jsonResponse_def serverError_def invalidEmail_def)

lemma feedback_envelope:
  \<open>status (fst (handleFeedback e upstream rj)) \<in> {200, 400, 500}
   \<and> headers (fst (handleFeedback e upstream rj))
       = CORS_HEADERS @ [(''Content-Type'', ''application/json'')]
   \<and> ((\<exists>msg. body (fst (handleFeedback e upstream rj)) = JsonBody (successBody msg))
      \<or> (\<exists>msg. body (fst (handleFeedback e upstream rj)) = JsonBody (errorBody msg)))\<close>
  using feedback_responses [of e upstream rj]
  by (auto simp: jsonResponse_def serverError_def)

lemma unsubscribe_envelope:
  \<open>status (fst (handleUnsubscribe e upstream v)) \<in> {200, 400, 500}
   \<and> headers (fst (handleUnsubscribe e upstream v))
       = CORS_HEADERS @ [(''Content-Type'', ''application/json'')]
   \<and> ((\<exists>msg. body (fst (handleUnsubscribe e upstream v)) = JsonBody (successBody msg))
      \<or> (\<exists>msg. body (fst (handleUnsubscribe e upstream v)) = JsonBody (errorBody msg)))\<close>
  using unsubscribe_responses [of e upstream v]
  by (auto simp: jsonResponse_def serverError_def invalidEmail_def)

lemma fetch_shape:
  assumes \<open>fetch e upstream r = Inr (resp, calls)\<close>
  shows \<open>(reqMethod r = ''OPTIONS'' \<and> resp = preflight)
    \<or> (reqMethod r = ''GET'' \<and> pathname r = ''/unsubscribe''
        \<and> (searchEmail r = None \<or> searchEmail r = Some []) \<and> resp = unsubscribePage)
    \<or> (status resp \<in> {200, 400, 405, 500}
        \<and> headers resp = CORS_HEADERS @ [(''Content-Type'', ''application/json'')]
        \<and> ((\<exists>msg. body resp = JsonBody (successBody msg))
           \<or> (\<exists>msg. body resp = JsonBody (errorBody msg))))\<close>
proof -
  consider \<open>reqMethod r = ''OPTIONS'' \<and> resp = preflight\<close>
    | \<open>reqMethod r = ''GET'' \<and> pathname r = ''/unsubscribe''
        \<and> (searchEmail r = None \<or> searchEmail r = Some []) \<and> resp = unsubscribePage\<close>
    | \<open>resp = methodNotAllowed\<close>
    | v where \<open>resp = fst (handleUnsubscribe e upstream v)\<close>
    | \<open>resp = fst (handleFeedback e upstream (requestJson r))\<close>
    | \<open>resp = fst (handleSignup e upstream (requestJson r))\<close>
    using fetch_cases [OF assms] by blast
  then show ?thesis
  proof cases
    case 1
    then show ?thesis by simp
  next
    case 2
    then show ?thesis by simp
  next
    case 3
    then show ?thesis by (auto simp: methodNotAllowed_def jsonResponse_def)
  next
    case 4
    with unsubscribe_envelope [of e upstream v] show ?thesis by auto
  next
    case 5
    with feedback_envelope [of e upstream \<open>requestJson r\<close>] show ?thesis by auto
  next
    case 6
    with signup_envelope [of e upstream \<open>requestJson r\<close>] show ?thesis by auto
  qed
qed


subsection \<open>Unsubscribing a contact the provider does not know\<close>

text \<open>
  Claim C1, as amended. For every unsubscribe request with a valid email (a string with an
  \<open>@\<close>), if the provider answers the PATCH call with status 404 and a body that parses
  as JSON, \<open>handleUnsubscribe\<close> returns status 200 with the body
  \<open>{success: true, message: 'You have been unsubscribed.'}\<close>.
\<close>

theorem unsubscribe_404_is_success:
  assumes \<open>CHR ''@'' \<in> set s\<close>
    and \<open>upstream (unsubscribeRequest e (toLowerCase (trim s))) = Reply 404 (Some result)\<close>
  shows \<open>status (fst (handleUnsubscribe e upstream (Some (JStr s)))) = 200
    \<and> body (fst (handleUnsubscribe e upstream (Some (JStr s))))
        = JsonBody (JObj [(''success'', JBool True),
                          (''message'', JStr ''You have been unsubscribed.'')])\<close>
  using assms
  by (simp add: handleUnsubscribe_string ok_def jsonResponse_def successBody_def)

theorem unsubscribe_404_is_success_witness:
  \<open>status (fst (handleUnsubscribe sampleEnv notFoundJson (Some (JStr '' Fan@Example.com '')))) = 200
    \<and> body (fst (handleUnsubscribe sampleEnv notFoundJson (Some (JStr '' Fan@Example.com ''))))
        = JsonBody (JObj [(''success'', JBool True),
                          (''message'', JStr ''You have been unsubscribed.'')])\<close>
  using unsubscribe_404_is_success [of \<open>'' Fan@Example.com ''\<close> notFoundJson sampleEnv]
  by (simp add: notFoundJson_def)

text \<open>
  The claim as first stated asks nothing of the body of the 404. The handler awaits
  \<open>response.json()\<close> before it looks at the status, so a 404 whose body is no JSON
  raises inside the \<open>try\<close>, and the request ends in 500.
\<close>

theorem unsubscribe_404_unparsable_counterexample:
  \<open>handleUnsubscribe sampleEnv notFoundNoJson (Some (JStr ''fan@example.com''))
     = (jsonResponse 500 (errorBody ''Server error''),
        [unsubscribeRequest sampleEnv ''fan@example.com''])\<close>
  by code_simp

subsection \<open>Signing up without a usable email\<close>

text \<open>
  Claim C2. For every subscribe request whose body has no email (the field is missing or
  \<open>null\<close>), or an email string that after trimming and lowercasing is empty or has no
  \<open>@\<close>, \<open>handleSignup\<close> returns status 400 with the body
  \<open>{error: 'Invalid email address'}\<close> and sends nothing to the provider. The body is any
  JSON value with properties to read, that is, any value but \<open>null\<close>.
\<close>

theorem signup_rejects_invalid_email:
  assumes \<open>b \<noteq> JNull\<close>
    and \<open>fieldOf b ''email'' = None \<or> fieldOf b ''email'' = Some JNull
       \<or> (\<exists>s. fieldOf b ''email'' = Some (JStr s)
              \<and> (toLowerCase (trim s) = [] \<or> CHR ''@'' \<notin> set (toLowerCase (trim s))))\<close>
  shows \<open>handleSignup e upstream (Some b)
           = (\<lparr>status = 400,
               headers = CORS_HEADERS @ [(''Content-Type'', ''application/json'')],
               body = JsonBody (JObj [(''error'', JStr ''Invalid email address'')])\<rparr>,
              [])\<close>
proof -
  have \<open>handleSignup e upstream (Some b) = (invalidEmail, [])\<close>
    using assms by (auto simp: handleSignup_string handleSignup_absent Let_def)
  then show ?thesis
    by (simp add: invalidEmail_def jsonResponse_def errorBody_def)
qed

theorem signup_rejects_invalid_email_witness:
  \<open>handleSignup sampleEnv notFoundJson (Some (JObj [(''email'', JStr ''  Nobody  '')]))
     = (\<lparr>status = 400,
         headers = CORS_HEADERS @ [(''Content-Type'', ''application/json'')],
         body = JsonBody (JObj [(''error'', JStr ''Invalid email address'')])\<rparr>,
        [])
   \<and> handleSignup sampleEnv notFoundJson (Some (JObj [(''name'', JStr ''fan'')]))
     = (\<lparr>status = 400,
         headers = CORS_HEADERS @ [(''Content-Type'', ''application/json'')],
         body = JsonBody (JObj [(''error'', JStr ''Invalid email address'')])\<rparr>,
        [])\<close>
proof -
  have n: \<open>toLowerCase (trim ''  Nobody  '') = ''nobody''\<close> by code_simp
  show ?thesis
    using signup_rejects_invalid_email
            [of \<open>JObj [(''email'', JStr ''  Nobody  '')]\<close> sampleEnv notFoundJson]
          signup_rejects_invalid_email
            [of \<open>JObj [(''name'', JStr ''fan'')]\<close> sampleEnv notFoundJson]
    by (simp add: n)
qed

subsection \<open>The feedback email\<close>

text \<open>
  Claim C3. Whenever \<open>handleFeedback\<close> sends an email to the admin, the \<open>html\<close> field
  of the request is the fixed template with three holes for user input: the type (or
  \<open>Feedback\<close>), the message and the sender's email (or \<open>Anonymous\<close>). Each hole holds
  the result of \<open>escapeHtml\<close> on the user's string (the message with its newlines then
  turned into \<open><br>\<close>), and that result has no \<open><\<close>, \<open>>\<close>, double quote or single
  quote.
\<close>

theorem feedback_html_is_escaped:
  assumes \<open>req \<in> set (snd (handleFeedback e upstream (Some b)))\<close>
  shows \<open>\<exists>message type email.
      fieldOf b ''message'' = Some (JStr message)
    \<and> strOrFalsy (fieldOf b ''type'') = Inr type
    \<and> strOrFalsy (fieldOf b ''email'') = Inr email
    \<and> fieldOf (payload req) ''html''
        = Some (JStr (htmlOpen @ escapeHtml (orDefault type ''Feedback'')
                      @ htmlAfterType @ replaceNewlines (escapeHtml message)
                      @ htmlAfterMessage @ escapeHtml (orDefault email ''Anonymous'')
                      @ htmlAfterEmail @ FORWARD_EMAIL e @ htmlClose))
    \<and> set (escapeHtml (orDefault type ''Feedback'')) \<inter> htmlSpecials = {}
    \<and> set (escapeHtml message) \<inter> htmlSpecials = {}
    \<and> set (escapeHtml (orDefault email ''Anonymous'')) \<inter> htmlSpecials = {}\<close>
proof -
  consider \<open>handleFeedback e upstream (Some b) = (serverError, [])\<close>
    | \<open>handleFeedback e upstream (Some b) = (jsonResponse 400 (errorBody ''Please enter a message''), [])\<close>
    | b' m t em where \<open>Some b = Some b'\<close> \<open>b' \<noteq> JNull\<close> \<open>fieldOf b' ''message'' = Some (JStr m)\<close>
        \<open>3 \<le> length (trim m)\<close> \<open>strOrFalsy (fieldOf b' ''type'') = Inr t\<close>
        \<open>strOrFalsy (fieldOf b' ''email'') = Inr em\<close>
    using feedback_cases by blast
  then show ?thesis
  proof cases
    case 1
    with assms show ?thesis by simp
  next
    case 2
    with assms show ?thesis by simp
  next
    case 3
    then have b: \<open>b' = b\<close> by simp
    from 3 assms have \<open>req = feedbackRequest e m em t\<close>
      unfolding b by (simp add: handleFeedback_sent Let_def)
    then have \<open>fieldOf (payload req) ''html'' = Some (JStr (feedbackHtml e m em t))\<close>
      by (simp add: html_of_feedbackRequest)
    with 3 show ?thesis
      unfolding b by (simp add: feedbackHtml_def escapeHtml_no_specials)
  qed
qed

theorem feedback_html_is_escaped_witness:
  \<open>fieldOf (payload (feedbackRequest sampleEnv ''<b>Great</b> site'' (FStr ''fan@example.com'') (FStr ''Idea''))) ''html''
     = Some (JStr (htmlOpen @ ''Idea'' @ htmlAfterType @ ''&lt;b&gt;Great&lt;/b&gt; site''
                   @ htmlAfterMessage @ ''fan@example.com'' @ htmlAfterEmail
                   @ ''forward@example.com'' @ htmlClose))\<close>
proof -
  have t: \<open>3 \<le> length (trim ''<b>Great</b> site'')\<close> by code_simp
  have s2: \<open>feedbackRequest sampleEnv ''<b>Great</b> site'' (FStr ''fan@example.com'') (FStr ''Idea'')
      \<in> set (snd (handleFeedback sampleEnv broken (Some sampleFeedback)))\<close>
    using t by (simp add: handleFeedback_sent sampleFeedback_def broken_def ok_def)
  have e1: \<open>escapeHtml ''Idea'' = ''Idea''\<close> by code_simp
  have e2: \<open>replaceNewlines (escapeHtml ''<b>Great</b> site'') = ''&lt;b&gt;Great&lt;/b&gt; site''\<close>
    by code_simp
  have e3: \<open>escapeHtml ''fan@example.com'' = ''fan@example.com''\<close> by code_simp
  from feedback_html_is_escaped [OF s2] show ?thesis
    by (auto simp: sampleFeedback_def e1 e2 e3 sampleEnv_def)
qed

subsection \<open>Status codes and bodies\<close>

text \<open>
  Claim C4, as amended. Every response that \<open>fetch\<close> produces has a status among 200,
  400, 405 and 500. Its body is JSON of the shape \<open>{success: true, message}\<close> or
  \<open>{error}\<close>, except in two cases: the answer to a CORS preflight has no body, and
  \<open>GET /unsubscribe\<close> without a non-empty \<open>email\<close> parameter answers with the HTML page.
\<close>

theorem fetch_status_and_body:
  assumes \<open>fetch e upstream r = Inr (resp, calls)\<close>
  shows \<open>status resp \<in> {200, 400, 405, 500}
    \<and> ((\<exists>msg. body resp = JsonBody (JObj [(''success'', JBool True), (''message'', JStr msg)]))
       \<or> (\<exists>msg. body resp = JsonBody (JObj [(''error'', JStr msg)]))
       \<or> (reqMethod r = ''OPTIONS'' \<and> body resp = NoBody)
       \<or> (reqMethod r = ''GET'' \<and> pathname r = ''/unsubscribe''
           \<and> (searchEmail r = None \<or> searchEmail r = Some []) \<and> body resp = UnsubscribePage))\<close>
  using fetch_shape [OF assms]
  by (auto simp: preflight_def unsubscribePage_def successBody_def errorBody_def)

theorem fetch_status_and_body_witness:
  \<open>status invalidEmail \<in> {200, 400, 405, 500}
   \<and> ((\<exists>msg. body invalidEmail = JsonBody (JObj [(''success'', JBool True), (''message'', JStr msg)]))
      \<or> (\<exists>msg. body invalidEmail = JsonBody (JObj [(''error'', JStr msg)]))
      \<or> (reqMethod (unsubscribePost '''') = ''OPTIONS'' \<and> body invalidEmail = NoBody)
      \<or> (reqMethod (unsubscribePost '''') = ''GET'' \<and> pathname (unsubscribePost '''') = ''/unsubscribe''
          \<and> (searchEmail (unsubscribePost '''') = None \<or> searchEmail (unsubscribePost '''') = Some [])
          \<and> body invalidEmail = UnsubscribePage))\<close>
proof -
  have \<open>fetch sampleEnv notFoundJson (unsubscribePost '''') = Inr (invalidEmail, [])\<close>
    by (simp add: fetch_def unsubscribePost_def getField_def handleUnsubscribe_def
        tryUnsubscribe_def catchAll_Inr)
  then show ?thesis by (rule fetch_status_and_body)
qed

text \<open>
  The claim as first stated gives every response a JSON body; the preflight response is
  built with a \<open>null\<close> body.
\<close>

theorem preflight_body_counterexample:
  \<open>fetch sampleEnv notFoundJson preflightRequest
     = Inr (\<lparr>status = 200, headers = CORS_HEADERS, body = NoBody\<rparr>, [])\<close>
  by (simp add: fetch_def preflightRequest_def preflight_def)

subsection \<open>Signing up a contact the provider already has\<close>

text \<open>
  Claim C5. For every subscribe request for which the handler calls the provider and the
  provider's answer is not ok and has a \<open>message\<close> string containing \<open>already exists\<close>,
  \<open>handleSignup\<close> returns status 200 with the body
  \<open>{success: true, message: 'Already subscribed!'}\<close>.
\<close>

theorem signup_already_exists_is_success:
  assumes \<open>req \<in> set (snd (handleSignup e upstream rj))\<close>
    and \<open>upstream req = Reply st (Some result)\<close> and \<open>\<not> ok st\<close>
    and \<open>fieldOf result ''message'' = Some (JStr (before @ ''already exists'' @ after))\<close>
  shows \<open>status (fst (handleSignup e upstream rj)) = 200
    \<and> body (fst (handleSignup e upstream rj))
        = JsonBody (JObj [(''success'', JBool True), (''message'', JStr ''Already subscribed!'')])\<close>
proof -
  from assms(4) have \<open>result \<noteq> JNull\<close> by auto
  moreover have \<open>includesStr (before @ ''already exists'' @ after) ''already exists''\<close>
    unfolding includesStr_iff by blast
  ultimately have ae: \<open>alreadyExists result = Inr True\<close>
    using assms(4) by (simp add: alreadyExists_def getField_def)
  consider \<open>handleSignup e upstream rj = (serverError, [])\<close>
    | \<open>handleSignup e upstream rj = (invalidEmail, [])\<close>
    | b s where \<open>rj = Some b\<close> \<open>fieldOf b ''email'' = Some (JStr s)\<close>
        \<open>CHR ''@'' \<in> set (toLowerCase (trim s))\<close>
    using signup_cases by blast
  then show ?thesis
  proof cases
    case 1
    with assms(1) show ?thesis by simp
  next
    case 2
    with assms(1) show ?thesis by simp
  next
    case 3
    with assms(1) have \<open>req = signupRequest e (toLowerCase (trim s))\<close>
      by (simp add: handleSignup_string Let_def)
    with 3 assms(2,3) ae show ?thesis
      by (simp add: handleSignup_string Let_def jsonResponse_def successBody_def)
  qed
qed

theorem signup_already_exists_is_success_witness:
  \<open>status (fst (handleSignup sampleEnv alreadyThere (Some (JObj [(''email'', JStr ''Fan@Example.com'')])))) = 200
    \<and> body (fst (handleSignup sampleEnv alreadyThere (Some (JObj [(''email'', JStr ''Fan@Example.com'')]))))
        = JsonBody (JObj [(''success'', JBool True), (''message'', JStr ''Already subscribed!'')])\<close>
proof -
  have n: \<open>toLowerCase (trim ''Fan@Example.com'') = ''fan@example.com''\<close> by code_simp
  have r: \<open>signupRequest sampleEnv ''fan@example.com''
      \<in> set (snd (handleSignup sampleEnv alreadyThere (Some (JObj [(''email'', JStr ''Fan@Example.com'')]))))\<close>
    by (simp add: handleSignup_string n alreadyThere_def ok_def)
  have u: \<open>alreadyThere (signupRequest sampleEnv ''fan@example.com'')
      = Reply 409 (Some (JObj [(''message'', JStr ''Contact already exists'')]))\<close>
    by (simp add: alreadyThere_def)
  have k: \<open>\<not> ok 409\<close> by (simp add: ok_def)
  have m: \<open>fieldOf (JObj [(''message'', JStr ''Contact already exists'')]) ''message''
      = Some (JStr (''Contact '' @ ''already exists'' @ []))\<close> by simp
  from signup_already_exists_is_success [OF r u k m] show ?thesis .
qed

subsection \<open>A failed provider call fails the request\<close>

text \<open>
  Claim C6. In each of the three handlers, if the call to the provider fails (the promise
  rejects or the response is not ok) and the handler's special case does not apply, then
  the handler has sent exactly that one request (no retry) and returns status 500 with an
  \<open>{error}\<close> body. The special case of \<open>handleSignup\<close> is the one the code tests,
  \<open>result.message?.includes('already exists')\<close>; that of \<open>handleUnsubscribe\<close> is
  status 404; \<open>handleFeedback\<close> has none.
\<close>

theorem failed_upstream_call_fails_request:
  \<open>(req \<in> set (snd (handleSignup e upstream rj)) \<and> failed (upstream req)
      \<and> (\<forall>st result. upstream req = Reply st (Some result) \<longrightarrow> alreadyExists result \<noteq> Inr True)
     \<longrightarrow> snd (handleSignup e upstream rj) = [req]
        \<and> status (fst (handleSignup e upstream rj)) = 500
        \<and> (\<exists>msg. body (fst (handleSignup e upstream rj)) = JsonBody (JObj [(''error'', JStr msg)])))
   \<and> (req \<in> set (snd (handleFeedback e upstream rj)) \<and> failed (upstream req)
     \<longrightarrow> snd (handleFeedback e upstream rj) = [req]
        \<and> status (fst (handleFeedback e upstream rj)) = 500
        \<and> (\<exists>msg. body (fst (handleFeedback e upstream rj)) = JsonBody (JObj [(''error'', JStr msg)])))
   \<and> (req \<in> set (snd (handleUnsubscribe e upstream email)) \<and> failed (upstream req)
      \<and> (\<forall>res. upstream req \<noteq> Reply 404 res)
     \<longrightarrow> snd (handleUnsubscribe e upstream email) = [req]
        \<and> status (fst (handleUnsubscribe e upstream email)) = 500
        \<and> (\<exists>msg. body (fst (handleUnsubscribe e upstream email))
                   = JsonBody (JObj [(''error'', JStr msg)])))\<close>
proof (intro conjI impI)
  assume a: \<open>req \<in> set (snd (handleSignup e upstream rj)) \<and> failed (upstream req)
      \<and> (\<forall>st result. upstream req = Reply st (Some result) \<longrightarrow> alreadyExists result \<noteq> Inr True)\<close>
  then have s: \<open>snd (handleSignup e upstream rj) = [req]
    \<and> fst (handleSignup e upstream rj)
        \<in> {serverError, jsonResponse 500 (errorBody ''Failed to subscribe'')}\<close>
    by (intro signup_failed) simp_all
  then show \<open>snd (handleSignup e upstream rj) = [req]\<close> by simp
  from s show \<open>status (fst (handleSignup e upstream rj)) = 500\<close>
    by (auto simp: status_serverError status_jsonResponse)
  from s show \<open>\<exists>msg. body (fst (handleSignup e upstream rj)) = JsonBody (JObj [(''error'', JStr msg)])\<close>
    by (auto simp: body_serverError body_jsonResponse errorBody_def)
next
  assume a: \<open>req \<in> set (snd (handleFeedback e upstream rj)) \<and> failed (upstream req)\<close>
  then have s: \<open>snd (handleFeedback e upstream rj) = [req]
    \<and> fst (handleFeedback e upstream rj)
        \<in> {serverError, jsonResponse 500 (errorBody ''Failed to send feedback'')}\<close>
    by (intro feedback_failed) simp_all
  then show \<open>snd (handleFeedback e upstream rj) = [req]\<close> by simp
  from s show \<open>status (fst (handleFeedback e upstream rj)) = 500\<close>
    by (auto simp: status_serverError status_jsonResponse)
  from s show \<open>\<exists>msg. body (fst (handleFeedback e upstream rj)) = JsonBody (JObj [(''error'', JStr msg)])\<close>
    by (auto simp: body_serverError body_jsonResponse errorBody_def)
next
  assume a: \<open>req \<in> set (snd (handleUnsubscribe e upstream email)) \<and> failed (upstream req)
      \<and> (\<forall>res. upstream req \<noteq> Reply 404 res)\<close>
  then have s: \<open>snd (handleUnsubscribe e upstream email) = [req]
    \<and> fst (handleUnsubscribe e upstream email)
        \<in> {serverError, jsonResponse 500 (errorBody ''Failed to unsubscribe'')}\<close>
    by (intro unsubscribe_failed) simp_all
  then show \<open>snd (handleUnsubscribe e upstream email) = [req]\<close> by simp
  from s show \<open>status (fst (handleUnsubscribe e upstream email)) = 500\<close>
    by (auto simp: status_serverError status_jsonResponse)
  from s show \<open>\<exists>msg. body (fst (handleUnsubscribe e upstream email))
                   = JsonBody (JObj [(''error'', JStr msg)])\<close>
    by (auto simp: body_serverError body_jsonResponse errorBody_def)
qed

theorem failed_upstream_call_fails_request_witness:
  \<open>snd (handleSignup sampleEnv broken (Some (JObj [(''email'', JStr ''fan@example.com'')])))
      = [signupRequest sampleEnv ''fan@example.com'']
   \<and> status (fst (handleSignup sampleEnv broken (Some (JObj [(''email'', JStr ''fan@example.com'')])))) = 500
   \<and> snd (handleFeedback sampleEnv broken (Some sampleFeedback))
      = [feedbackRequest sampleEnv ''<b>Great</b> site'' (FStr ''fan@example.com'') (FStr ''Idea'')]
   \<and> status (fst (handleFeedback sampleEnv broken (Some sampleFeedback))) = 500
   \<and> snd (handleUnsubscribe sampleEnv broken (Some (JStr ''fan@example.com'')))
      = [unsubscribeRequest sampleEnv ''fan@example.com'']
   \<and> status (fst (handleUnsubscribe sampleEnv broken (Some (JStr ''fan@example.com'')))) = 500\<close>
proof -
  have n: \<open>toLowerCase (trim ''fan@example.com'') = ''fan@example.com''\<close> by code_simp
  have t: \<open>3 \<le> length (trim ''<b>Great</b> site'')\<close> by code_simp
  have f: \<open>failed (broken r)\<close> for r by (simp add: failed_def broken_def ok_def)
  have x: \<open>\<forall>st result. broken r = Reply st (Some result) \<longrightarrow> alreadyExists result \<noteq> Inr True\<close> for r
    by (simp add: broken_def alreadyExists_def getField_def)
  have u: \<open>\<forall>res. broken r \<noteq> Reply 404 res\<close> for r by (simp add: broken_def)
  have s1: \<open>signupRequest sampleEnv ''fan@example.com''
      \<in> set (snd (handleSignup sampleEnv broken (Some (JObj [(''email'', JStr ''fan@example.com'')]))))\<close>
    by (simp add: handleSignup_string n broken_def ok_def)
  have s2: \<open>feedbackRequest sampleEnv ''<b>Great</b> site'' (FStr ''fan@example.com'') (FStr ''Idea'')
      \<in> set (snd (handleFeedback sampleEnv broken (Some sampleFeedback)))\<close>
    using t by (simp add: handleFeedback_sent sampleFeedback_def broken_def ok_def)
  have s3: \<open>unsubscribeRequest sampleEnv ''fan@example.com''
      \<in> set (snd (handleUnsubscribe sampleEnv broken (Some (JStr ''fan@example.com''))))\<close>
    by (simp add: handleUnsubscribe_string n broken_def ok_def)
  from failed_upstream_call_fails_request
         [of \<open>signupRequest sampleEnv ''fan@example.com''\<close> sampleEnv broken
             \<open>Some (JObj [(''email'', JStr ''fan@example.com'')])\<close>] s1 f x
  have a: \<open>snd (handleSignup sampleEnv broken (Some (JObj [(''email'', JStr ''fan@example.com'')])))
      = [signupRequest sampleEnv ''fan@example.com'']
   \<and> status (fst (handleSignup sampleEnv broken (Some (JObj [(''email'', JStr ''fan@example.com'')])))) = 500\<close>
    by blast
  from failed_upstream_call_fails_request
         [of \<open>feedbackRequest sampleEnv ''<b>Great</b> site'' (FStr ''fan@example.com'') (FStr ''Idea'')\<close>
             sampleEnv broken \<open>Some sampleFeedback\<close>] s2 f
  have b: \<open>snd (handleFeedback sampleEnv broken (Some sampleFeedback))
      = [feedbackRequest sampleEnv ''<b>Great</b> site'' (FStr ''fan@example.com'') (FStr ''Idea'')]
   \<and> status (fst (handleFeedback sampleEnv broken (Some sampleFeedback))) = 500\<close>
    by blast
  from failed_upstream_call_fails_request
         [of \<open>unsubscribeRequest sampleEnv ''fan@example.com''\<close> sampleEnv broken _
             \<open>Some (JStr ''fan@example.com'')\<close>] s3 f u
  have c: \<open>snd (handleUnsubscribe sampleEnv broken (Some (JStr ''fan@example.com'')))
      = [unsubscribeRequest sampleEnv ''fan@example.com'']
   \<and> status (fst (handleUnsubscribe sampleEnv broken (Some (JStr ''fan@example.com'')))) = 500\<close>
    by blast
  from a b c show ?thesis by blast
qed

subsection \<open>GET and POST on /unsubscribe\<close>

text \<open>
  Claim C7, as amended. For every non-empty email string \<open>E\<close>, \<open>GET /unsubscribe\<close> with
  the query parameter \<open>email=E\<close> and \<open>POST /unsubscribe\<close> with the body \<open>{email: E}\<close>
  have the same outcome (response and requests to the provider): that of
  \<open>handleUnsubscribe\<close> on \<open>E\<close>.
\<close>

theorem unsubscribe_get_post_same:
  assumes \<open>E \<noteq> []\<close>
  shows \<open>fetch e upstream (unsubscribeGet E) = fetch e upstream (unsubscribePost E)
    \<and> fetch e upstream (unsubscribeGet E) = Inr (handleUnsubscribe e upstream (Some (JStr E)))\<close>
  using assms by (simp add: fetch_def unsubscribeGet_def unsubscribePost_def getField_def)

theorem unsubscribe_get_post_same_witness:
  \<open>fetch sampleEnv notFoundJson (unsubscribeGet ''fan@example.com'')
     = fetch sampleEnv notFoundJson (unsubscribePost ''fan@example.com'')
   \<and> fetch sampleEnv notFoundJson (unsubscribeGet ''fan@example.com'')
     = Inr (handleUnsubscribe sampleEnv notFoundJson (Some (JStr ''fan@example.com'')))\<close>
proof -
  have \<open>''fan@example.com'' \<noteq> []\<close> by simp
  then show ?thesis by (rule unsubscribe_get_post_same)
qed

text \<open>
  The claim as first stated is for every string. For the empty string the GET route does
  not reach the handler (\<open>if (email)\<close>) and answers with the HTML page, where the POST
  route answers 400.
\<close>

theorem unsubscribe_get_post_empty_counterexample:
  \<open>fetch sampleEnv notFoundJson (unsubscribeGet '''') = Inr (unsubscribePage, [])
   \<and> fetch sampleEnv notFoundJson (unsubscribePost '''') = Inr (invalidEmail, [])
   \<and> status unsubscribePage = 200 \<and> status invalidEmail = 400\<close>
  by (simp add: fetch_def unsubscribeGet_def unsubscribePost_def getField_def
      handleUnsubscribe_def tryUnsubscribe_def catchAll_Inr unsubscribePage_def invalidEmail_def
      jsonResponse_def)

subsection \<open>The CORS header\<close>

text \<open>
  Claim C8. Every response that \<open>fetch\<close> returns carries the header
  \<open>Access-Control-Allow-Origin: *\<close>. In this revision \<open>fetch\<close> returns a response for
  every request but one kind: on \<open>POST /unsubscribe\<close> with a body that is no JSON, or is
  \<open>null\<close>, the exception leaves the handler and no response is returned.
\<close>

theorem every_response_allows_any_origin:
  \<open>case fetch e upstream r of
     Inr (resp, calls) \<Rightarrow> map_of (headers resp) ''Access-Control-Allow-Origin'' = Some ''*''
   | Inl x \<Rightarrow> reqMethod r = ''POST'' \<and> pathname r = ''/unsubscribe''
              \<and> (requestJson r = None \<or> requestJson r = Some JNull)\<close>
proof (cases \<open>fetch e upstream r\<close>)
  case (Inl x)
  then show ?thesis using fetch_raises by simp
next
  case (Inr p)
  obtain resp calls where p: \<open>p = (resp, calls)\<close> by (cases p)
  with Inr have \<open>fetch e upstream r = Inr (resp, calls)\<close> by simp
  from fetch_shape [OF this]
  have \<open>map_of (headers resp) ''Access-Control-Allow-Origin'' = Some ''*''\<close>
    by (auto simp: preflight_def unsubscribePage_def CORS_HEADERS_def)
  with Inr p show ?thesis by simp
qed

theorem every_response_allows_any_origin_witness:
  \<open>map_of (headers unsubscribePage) ''Access-Control-Allow-Origin'' = Some ''*''\<close>
proof -
  have \<open>fetch sampleEnv notFoundJson (unsubscribeGet '''') = Inr (unsubscribePage, [])\<close>
    by (simp add: fetch_def unsubscribeGet_def)
  with every_response_allows_any_origin
         [where e = sampleEnv and upstream = notFoundJson and r = \<open>unsubscribeGet ''''\<close>]
  show ?thesis by simp
qed

subsection \<open>Letter case and surrounding white space of the email\<close>

text \<open>
  Claim C10. Two email strings that differ only in letter case or in leading and trailing
  white space have the same image under \<open>trim\<close> and \<open>toLowerCase\<close>. For two such
  strings \<open>handleSignup\<close> sends the same request to the provider and returns the same
  response, and so does \<open>handleUnsubscribe\<close>.
\<close>

theorem same_email_same_outcome:
  assumes \<open>toLowerCase (trim s1) = toLowerCase (trim s2)\<close>
    and \<open>fieldOf b1 ''email'' = Some (JStr s1)\<close> and \<open>fieldOf b2 ''email'' = Some (JStr s2)\<close>
  shows \<open>handleSignup e upstream (Some b1) = handleSignup e upstream (Some b2)
    \<and> handleUnsubscribe e upstream (Some (JStr s1)) = handleUnsubscribe e upstream (Some (JStr s2))\<close>
proof -
  have \<open>CHR ''@'' \<in> set s1 \<longleftrightarrow> CHR ''@'' \<in> set s2\<close>
    using assms(1) at_in_normalised by metis
  with assms show ?thesis
    by (simp add: handleSignup_string handleUnsubscribe_string)
qed

theorem same_email_same_outcome_witness:
  \<open>handleSignup sampleEnv alreadyThere (Some (JObj [(''email'', JStr ''  Fan@Example.COM '')]))
     = handleSignup sampleEnv alreadyThere (Some (JObj [(''email'', JStr ''fan@example.com'')]))
   \<and> handleUnsubscribe sampleEnv alreadyThere (Some (JStr ''  Fan@Example.COM ''))
     = handleUnsubscribe sampleEnv alreadyThere (Some (JStr ''fan@example.com''))\<close>
proof -
  have n: \<open>toLowerCase (trim ''  Fan@Example.COM '') = toLowerCase (trim ''fan@example.com'')\<close>
    by code_simp
  show ?thesis
    using same_email_same_outcome
      [OF n, of \<open>JObj [(''email'', JStr ''  Fan@Example.COM '')]\<close>
                \<open>JObj [(''email'', JStr ''fan@example.com'')]\<close> sampleEnv alreadyThere]
    by simp
qed


end
